theory Spec2Isabelle
  imports Complex_Main "HOL-Library.Sublist"
begin

section \<open>The sweep driver \<^verbatim>\<open>publish_experiment.py\<close>\<close>

text \<open>
  The script runs an external publish client once per (datasize, frequency) pair, runs an
  external latency utility, and aggregates the utility's output into \<^verbatim>\<open>computed.out\<close>.
  The embedding follows the script top to bottom. A Python \<^verbatim>\<open>str\<close> is a \<open>string\<close>;
  a \<open>char\<close> stands for a code point below 256.
\<close>

subsection \<open>Python string builtins used by the script\<close>

text \<open>
  \<^verbatim>\<open>str.isspace\<close> on one character, for code points below 256: the characters
  9 to 13, 28 to 32, 133 and 160. \<^verbatim>\<open>strip\<close>, \<^verbatim>\<open>rstrip\<close> and \<^verbatim>\<open>split\<close> (all called
  without an argument) use this set.
\<close>

definition is_space :: "char \<Rightarrow> bool" where
  "is_space c = (let n = (of_char c :: nat) in
     (9 \<le> n \<and> n \<le> 13) \<or> (28 \<le> n \<and> n \<le> 32) \<or> n = 133 \<or> n = 160)"

definition rstrip :: "string \<Rightarrow> string" where
  "rstrip s = rev (dropWhile is_space (rev s))"

definition strip :: "string \<Rightarrow> string" where
  "strip s = rstrip (dropWhile is_space s)"

definition startswith :: "string \<Rightarrow> string \<Rightarrow> bool" where
  "startswith s p = (take (length p) s = p)"

text \<open>\<^verbatim>\<open>s.split()\<close>: the maximal runs of non-whitespace characters, in order.\<close>

function split :: "string \<Rightarrow> string list" where
  "split s =
     (case dropWhile is_space s of
        [] \<Rightarrow> []
      | c # t \<Rightarrow> (c # takeWhile (\<lambda>x. \<not> is_space x) t) # split (dropWhile (\<lambda>x. \<not> is_space x) t))"
  by pat_completeness auto
termination
proof (relation "measure length")
  show "wf (measure length)" by simp
next
  fix s :: string and c t
  assume a: "dropWhile is_space s = c # t"
  have "length (dropWhile (\<lambda>x. \<not> is_space x) t) \<le> length t"
    by (rule length_dropWhile_le)
  also have "length t < length (dropWhile is_space s)"
    using a by simp
  also have "\<dots> \<le> length s"
    by (rule length_dropWhile_le)
  finally show "(dropWhile (\<lambda>x. \<not> is_space x) t, s) \<in> measure length"
    by simp
qed

declare split.simps [simp del]

text \<open>\<^verbatim>\<open>xs[a:b]\<close> for \<open>0 \<le> a \<le> b\<close>: out-of-range bounds are clamped, never an error.\<close>

definition slice :: "'a list \<Rightarrow> nat \<Rightarrow> nat \<Rightarrow> 'a list" where
  "slice xs a b = take (b - a) (drop a xs)"

subsection \<open>Line 66: the data-line filter\<close>

text \<open>
  \<^verbatim>\<open>data_lines = [line for line in all_lines
                 if line.strip() and not line.startswith("#")
                    and not line.startswith("msgid")]\<close>
\<close>

definition keep_line :: "string \<Rightarrow> bool" where
  "keep_line line =
     (strip line \<noteq> [] \<and> \<not> startswith line ''#'' \<and> \<not> startswith line ''msgid'')"

definition data_lines :: "string list \<Rightarrow> string list" where
  "data_lines all_lines = filter keep_line all_lines"

subsection \<open>Python numbers\<close>

datatype error = ValueError | IndexError | ZeroDivisionError

text \<open>\<^verbatim>\<open>str(n)\<close> for an \<^verbatim>\<open>int\<close>: decimal digits, with a leading minus sign when negative.\<close>

definition digit_char :: "int \<Rightarrow> char" where
  "digit_char d = char_of (48 + d)"

function str_digits :: "int \<Rightarrow> string" where
  "str_digits n =
     (if n < 10 then [digit_char n] else str_digits (n div 10) @ [digit_char (n mod 10)])"
  by pat_completeness auto
termination
  by (relation "measure nat") auto

declare str_digits.simps [simp del]

definition str_int :: "int \<Rightarrow> string" where
  "str_int i = (if i < 0 then CHR ''-'' # str_digits (- i) else str_digits i)"

text \<open>
  A Python \<^verbatim>\<open>float\<close> is an IEEE 754 double: a sign with a magnitude that is a
  representable rational, an infinity, or a NaN. \<open>round_double\<close> rounds a non-negative
  rational to the nearest double, ties to even: 53 significant bits, least exponent
  \<open>-1074\<close>, overflow to infinity from \<open>2 ^ 1024\<close> on.
\<close>

datatype pyfloat = Finite bool rat | Infinity bool | NaN

function bit_length :: "int \<Rightarrow> nat" where
  "bit_length n = (if n \<le> 0 then 0 else Suc (bit_length (n div 2)))"
  by pat_completeness auto
termination
  by (relation "measure nat") auto

declare bit_length.simps [simp del]

definition pow2 :: "int \<Rightarrow> rat" where
  "pow2 k = (if 0 \<le> k then 2 ^ nat k else 1 / 2 ^ nat (- k))"

definition pow10 :: "int \<Rightarrow> rat" where
  "pow10 k = (if 0 \<le> k then 10 ^ nat k else 1 / 10 ^ nat (- k))"

definition ilog2 :: "rat \<Rightarrow> int" where
  "ilog2 q =
     (let k = int (bit_length (fst (quotient_of q))) - int (bit_length (snd (quotient_of q)))
      in if pow2 k \<le> q then k else k - 1)"

definition round_half_even :: "rat \<Rightarrow> int" where
  "round_half_even q =
     (let f = \<lfloor>q\<rfloor>; d = q - of_int f
      in if d < 1 / 2 then f else if 1 / 2 < d then f + 1 else if even f then f else f + 1)"

definition round_double :: "bool \<Rightarrow> rat \<Rightarrow> pyfloat" where
  "round_double neg q =
     (if q = 0 then Finite neg 0
      else let e = max (ilog2 q - 52) (- 1074);
               v = of_int (round_half_even (q / pow2 e)) * pow2 e
           in if pow2 1024 \<le> v then Infinity neg else Finite neg v)"

text \<open>
  \<^verbatim>\<open>float(s)\<close> on a string. Surrounding whitespace is dropped (here the characters
  9 to 13, 32, 133 and 160); an underscore must stand between two digits; then an
  optional sign is followed by \<^verbatim>\<open>inf\<close>, \<^verbatim>\<open>infinity\<close> or \<^verbatim>\<open>nan\<close> in any case, or
  by a decimal numeral with an optional fraction and exponent. Anything else raises
  \<^verbatim>\<open>ValueError\<close>. The numeral's value is rounded to the nearest double.
\<close>

definition is_digit :: "char \<Rightarrow> bool" where
  "is_digit c = (let n = (of_char c :: nat) in 48 \<le> n \<and> n \<le> 57)"

definition digits_val :: "string \<Rightarrow> int" where
  "digits_val ds = foldl (\<lambda>a c. 10 * a + (of_char c - 48)) 0 ds"

definition lower :: "char \<Rightarrow> char" where
  "lower c = (let n = (of_char c :: nat) in if 65 \<le> n \<and> n \<le> 90 then char_of (n + 32) else c)"

definition is_float_space :: "char \<Rightarrow> bool" where
  "is_float_space c =
     (let n = (of_char c :: nat) in (9 \<le> n \<and> n \<le> 13) \<or> n = 32 \<or> n = 133 \<or> n = 160)"

fun underscores_ok :: "char \<Rightarrow> string \<Rightarrow> bool" where
  "underscores_ok prev [] = (prev \<noteq> CHR ''_'')"
| "underscores_ok prev (c # cs) =
     ((if c = CHR ''_'' then is_digit prev else (prev = CHR ''_'' \<longrightarrow> is_digit c))
      \<and> underscores_ok c cs)"

definition take_sign :: "string \<Rightarrow> bool \<times> string" where
  "take_sign s =
     (case s of
        [] \<Rightarrow> (False, [])
      | c # t \<Rightarrow> if c = CHR ''-'' then (True, t) else if c = CHR ''+'' then (False, t) else (False, s))"

definition parse_exponent :: "string \<Rightarrow> int option" where
  "parse_exponent r =
     (case r of
        [] \<Rightarrow> Some 0
      | c # t \<Rightarrow>
          if c = CHR ''e'' \<or> c = CHR ''E'' then
            (let sd = take_sign t
             in if snd sd \<noteq> [] \<and> list_all is_digit (snd sd)
                then Some (if fst sd then - digits_val (snd sd) else digits_val (snd sd))
                else None)
          else None)"

definition parse_fraction :: "string \<Rightarrow> string \<times> string" where
  "parse_fraction r1 =
     (case r1 of
        [] \<Rightarrow> ([], [])
      | c # t \<Rightarrow> if c = CHR ''.'' then (takeWhile is_digit t, dropWhile is_digit t) else ([], r1))"

definition py_float :: "string \<Rightarrow> error + pyfloat" where
  "py_float str =
     (let s = rev (dropWhile is_float_space (rev (dropWhile is_float_space str)))
      in if \<not> underscores_ok (CHR 0x00) s then Inl ValueError
         else
           let sr = take_sign (filter (\<lambda>c. c \<noteq> CHR ''_'') s);
               low = map lower (snd sr)
           in if low = ''inf'' \<or> low = ''infinity'' then Inr (Infinity (fst sr))
              else if low = ''nan'' then Inr NaN
              else
                let ip = takeWhile is_digit (snd sr);
                    fr = parse_fraction (dropWhile is_digit (snd sr))
                in if ip = [] \<and> fst fr = [] then Inl ValueError
                   else
                     (case parse_exponent (snd fr) of
                        None \<Rightarrow> Inl ValueError
                      | Some ex \<Rightarrow>
                          Inr (round_double (fst sr)
                                 (of_int (digits_val (ip @ fst fr)) * pow10 (ex - int (length (fst fr)))))))"

text \<open>
  The running totals start as the \<^verbatim>\<open>int\<close> 0 and become floats with the first
  addition; an average is the \<^verbatim>\<open>int\<close> 0 for an empty block. \<^verbatim>\<open>int + float\<close>
  converts the integer first; \<^verbatim>\<open>/\<close> raises \<^verbatim>\<open>ZeroDivisionError\<close> on a zero divisor.
  The divisor is a list length, below \<open>2 ^ 63\<close>, so its conversion to a float cannot
  overflow.
\<close>

datatype pynum = PInt int | PFloat pyfloat

definition float_of_int :: "int \<Rightarrow> pyfloat" where
  "float_of_int i = round_double (i < 0) (of_int \<bar>i\<bar>)"

definition to_float :: "pynum \<Rightarrow> pyfloat" where
  "to_float a = (case a of PInt i \<Rightarrow> float_of_int i | PFloat x \<Rightarrow> x)"

definition signed :: "bool \<Rightarrow> rat \<Rightarrow> rat" where
  "signed neg q = (if neg then - q else q)"

fun float_add :: "pyfloat \<Rightarrow> pyfloat \<Rightarrow> pyfloat" where
  "float_add NaN y = NaN"
| "float_add x NaN = NaN"
| "float_add (Infinity s1) (Infinity s2) = (if s1 = s2 then Infinity s1 else NaN)"
| "float_add (Infinity s1) (Finite s2 q2) = Infinity s1"
| "float_add (Finite s1 q1) (Infinity s2) = Infinity s2"
| "float_add (Finite s1 q1) (Finite s2 q2) =
     (let v = signed s1 q1 + signed s2 q2
      in if v = 0 then Finite (s1 \<and> s2) 0 else round_double (v < 0) \<bar>v\<bar>)"

fun float_truediv :: "pyfloat \<Rightarrow> pyfloat \<Rightarrow> error + pyfloat" where
  "float_truediv x (Finite s2 q2) =
     (if q2 = 0 then Inl ZeroDivisionError
      else case x of
             NaN \<Rightarrow> Inr NaN
           | Infinity s1 \<Rightarrow> Inr (Infinity (s1 \<noteq> s2))
           | Finite s1 q1 \<Rightarrow> Inr (round_double (s1 \<noteq> s2) (q1 / q2)))"
| "float_truediv x (Infinity s2) =
     (case x of Finite s1 q1 \<Rightarrow> Inr (Finite (s1 \<noteq> s2) 0) | _ \<Rightarrow> Inr NaN)"
| "float_truediv x NaN = Inr NaN"

definition py_add :: "pynum \<Rightarrow> pyfloat \<Rightarrow> pynum" where
  "py_add a b = PFloat (float_add (to_float a) b)"

definition py_truediv :: "pynum \<Rightarrow> nat \<Rightarrow> error + pynum" where
  "py_truediv a n =
     (case a of
        PInt i \<Rightarrow>
          if n = 0 then Inl ZeroDivisionError
          else Inr (PFloat (round_double (i < 0) (of_int \<bar>i\<bar> / of_nat n)))
      | PFloat x \<Rightarrow>
          (case float_truediv x (float_of_int (int n)) of
             Inl e \<Rightarrow> Inl e
           | Inr y \<Rightarrow> Inr (PFloat y)))"

text \<open>
  The format specification \<^verbatim>\<open>.2f\<close>: the exact value rounded to two decimals, ties to
  even; the sign is kept even when the digits are all zero; an \<^verbatim>\<open>int\<close> is converted
  to a float first; infinities and NaN are spelled out.
\<close>

definition fmt2f_float :: "pyfloat \<Rightarrow> string" where
  "fmt2f_float x =
     (case x of
        NaN \<Rightarrow> ''nan''
      | Infinity neg \<Rightarrow> (if neg then ''-inf'' else ''inf'')
      | Finite neg q \<Rightarrow>
          (let n = round_half_even (q * 100)
           in (if neg then ''-'' else []) @ str_digits (n div 100) @ ''.''
              @ [digit_char (n mod 100 div 10), digit_char (n mod 10)]))"

definition fmt2f :: "pynum \<Rightarrow> string" where
  "fmt2f a = fmt2f_float (to_float a)"

subsection \<open>The world the script acts on\<close>

text \<open>
  The files of the working directory (name to contents), the lines printed so far, and
  the argument vectors handed to \<^verbatim>\<open>subprocess.run\<close> so far. What the external
  programs do is outside the script: a call is recorded, not interpreted.
  Opening with mode \<^verbatim>\<open>"w"\<close> creates or truncates the file; mode \<^verbatim>\<open>"a"\<close> creates
  it or writes at its end.
\<close>

record world =
  files :: "string \<rightharpoonup> string"
  stdout :: "string list"
  calls :: "string list list"

definition open_w_write :: "string \<Rightarrow> string \<Rightarrow> world \<Rightarrow> world" where
  "open_w_write name txt w = w\<lparr>files := (files w)(name \<mapsto> txt)\<rparr>"

definition open_a_write :: "string \<Rightarrow> string \<Rightarrow> world \<Rightarrow> world" where
  "open_a_write name txt w =
     w\<lparr>files := (files w)(name \<mapsto> (case files w name of None \<Rightarrow> txt | Some old \<Rightarrow> old @ txt))\<rparr>"

definition print :: "string \<Rightarrow> world \<Rightarrow> world" where
  "print line w = w\<lparr>stdout := stdout w @ [line]\<rparr>"

definition subprocess_run :: "string list \<Rightarrow> world \<Rightarrow> world" where
  "subprocess_run argv w = w\<lparr>calls := calls w @ [argv]\<rparr>"

fun join :: "string \<Rightarrow> string list \<Rightarrow> string" where
  "join sep [] = []"
| "join sep [x] = x"
| "join sep (x # y # ys) = x @ sep @ join sep (y # ys)"

subsection \<open>Lines 11 to 41: the parameter sets and the run phase\<close>

definition datasizes :: "int list" where
  "datasizes = [3000, 30000, 300000]"

definition frequencies :: "string list" where
  "frequencies = [''0.5s'', ''1s'', ''5s'']"

definition count :: nat where
  "count = 5"

definition command_template :: "string \<Rightarrow> nat \<Rightarrow> string list" where
  "command_template ipfile cnt =
     [''./p2p_client_multi_streams_publish'',
      ''-start-index'', ''1'',
      ''-end-index'', ''2'',
      ''-ipfile'', ipfile,
      ''-topic'', ''topicA'',
      ''-count'', str_int (int cnt),
      ''-sleep'', [],
      ''-datasize'', [],
      ''-output'', ''outgoing.txt'']"

text \<open>
  The loop overwrites three slots of the one template list and runs it. The template
  has 17 entries, so the indices 12, 14 and 16 are in range.
\<close>

fun run_loop :: "(int \<times> string) list \<Rightarrow> string list \<Rightarrow> world \<Rightarrow> string list \<times> world" where
  "run_loop [] template w = (template, w)"
| "run_loop ((datasize, freq) # rest) template w =
     (let t1 = template[12 := freq];
          t2 = t1[14 := str_int datasize];
          t3 = t2[16 := str_int datasize @ ''-'' @ freq @ ''-output.txt''];
          w1 = print (''Running command: '' @ join '' '' t3) w;
          w2 = subprocess_run t3 w1
      in run_loop rest t3 w2)"

definition run_phase :: "string \<Rightarrow> int list \<Rightarrow> string list \<Rightarrow> nat \<Rightarrow> world \<Rightarrow> world" where
  "run_phase ipfile ds fs cnt w =
     snd (run_loop (List.product ds fs) (command_template ipfile cnt) w)"

subsection \<open>Lines 68 to 106: the aggregation phase\<close>

definition index :: "'a list \<Rightarrow> nat \<Rightarrow> error + 'a" where
  "index xs i = (if i < length xs then Inr (xs ! i) else Inl IndexError)"

text \<open>
  Lines 86 to 89, in the order the script evaluates them: the first missing or
  non-numeric field decides the exception.
\<close>

definition parse_line :: "string \<Rightarrow> error + (pyfloat \<times> pyfloat \<times> pyfloat)" where
  "parse_line line =
     (let parts = split line
      in case index parts 2 of Inl e \<Rightarrow> Inl e | Inr s2 \<Rightarrow>
         (case py_float s2 of Inl e \<Rightarrow> Inl e | Inr mean \<Rightarrow>
         (case index parts 3 of Inl e \<Rightarrow> Inl e | Inr s3 \<Rightarrow>
         (case py_float s3 of Inl e \<Rightarrow> Inl e | Inr p90 \<Rightarrow>
         (case index parts 4 of Inl e \<Rightarrow> Inl e | Inr s4 \<Rightarrow>
         (case py_float s4 of Inl e \<Rightarrow> Inl e | Inr p95 \<Rightarrow>
            Inr (mean, p90, p95)))))))"

fun sum_lines :: "string list \<Rightarrow> pynum \<times> pynum \<times> pynum \<Rightarrow> error + (pynum \<times> pynum \<times> pynum)" where
  "sum_lines [] totals = Inr totals"
| "sum_lines (line # rest) (total_mean, total_p90, total_p95) =
     (case parse_line line of
        Inl e \<Rightarrow> Inl e
      | Inr (mean, p90, p95) \<Rightarrow>
          sum_lines rest (py_add total_mean mean, py_add total_p90 p90, py_add total_p95 p95))"

definition average :: "pynum \<Rightarrow> nat \<Rightarrow> error + pynum" where
  "average tot count_lines =
     (if count_lines \<noteq> 0 then py_truediv tot count_lines else Inr (PInt 0))"

definition averages :: "string list \<Rightarrow> error + (pynum \<times> pynum \<times> pynum)" where
  "averages iteration_lines =
     (case sum_lines iteration_lines (PInt 0, PInt 0, PInt 0) of
        Inl e \<Rightarrow> Inl e
      | Inr (total_mean, total_p90, total_p95) \<Rightarrow>
          (let count_lines = length iteration_lines
           in case average total_mean count_lines of Inl e \<Rightarrow> Inl e | Inr avg_mean \<Rightarrow>
              (case average total_p90 count_lines of Inl e \<Rightarrow> Inl e | Inr avg_p90 \<Rightarrow>
              (case average total_p95 count_lines of Inl e \<Rightarrow> Inl e | Inr avg_p95 \<Rightarrow>
                 Inr (avg_mean, avg_p90, avg_p95)))))"

definition ljust10 :: "string \<Rightarrow> string" where
  "ljust10 s = s @ replicate (10 - length s) CHR '' ''"

definition header :: string where
  "header = ljust10 ''msgid'' @ [CHR 0x09] @ ljust10 ''n'' @ [CHR 0x09] @ ljust10 ''mean''
     @ [CHR 0x09] @ ljust10 ''p90'' @ [CHR 0x09] @ ljust10 ''p95'' @ [CHR 0x0A]"

definition raw_lines :: "string list \<Rightarrow> string list" where
  "raw_lines iteration_lines = map (\<lambda>line. rstrip line @ [CHR 0x0A]) iteration_lines"

definition summary_line :: "int \<Rightarrow> string \<Rightarrow> pynum \<Rightarrow> pynum \<Rightarrow> pynum \<Rightarrow> string" where
  "summary_line datasize freq avg_mean avg_p90 avg_p95 =
     ''# datasize='' @ str_int datasize @ '' freq='' @ freq
     @ '' avg_mean='' @ fmt2f avg_mean @ '' avg_p90='' @ fmt2f avg_p90
     @ '' avg_p95='' @ fmt2f avg_p95"

definition iteration_lines_of :: "nat \<Rightarrow> nat \<Rightarrow> string list \<Rightarrow> string list" where
  "iteration_lines_of iteration cnt dl =
     (let start_idx = iteration * cnt; end_idx = start_idx + cnt in slice dl start_idx end_idx)"

text \<open>
  One pass of the loop of line 74. The parsing loop comes before the file is opened,
  so a block that raises writes nothing. \<open>block_text\<close> is what lines 100 to 103 write
  for a block whose averages were computed.
\<close>

definition block_text :: "int \<Rightarrow> string \<Rightarrow> string list \<Rightarrow> pynum \<times> pynum \<times> pynum \<Rightarrow> string" where
  "block_text datasize freq iteration_lines avgs =
     concat (raw_lines iteration_lines)
     @ summary_line datasize freq (fst avgs) (fst (snd avgs)) (snd (snd avgs))
     @ [CHR 0x0A, CHR 0x0A]"

definition process_block ::
  "int \<Rightarrow> string \<Rightarrow> nat \<Rightarrow> nat \<Rightarrow> string list \<Rightarrow> world \<Rightarrow> error option \<times> world" where
  "process_block datasize freq iteration cnt dl w =
     (let iteration_lines = iteration_lines_of iteration cnt dl
      in case averages iteration_lines of
           Inl e \<Rightarrow> (Some e, w)
         | Inr avgs \<Rightarrow>
             (None,
              print (''Appended averages to trace file: datasize='' @ str_int datasize
                     @ '', freq='' @ freq)
                (open_a_write ''computed.out'' (block_text datasize freq iteration_lines avgs) w)))"

fun agg_loop ::
  "(int \<times> string) list \<Rightarrow> nat \<Rightarrow> nat \<Rightarrow> string list \<Rightarrow> world \<Rightarrow> error option \<times> world" where
  "agg_loop [] iteration cnt dl w = (None, w)"
| "agg_loop ((datasize, freq) # rest) iteration cnt dl w =
     (case process_block datasize freq iteration cnt dl w of
        (Some e, w') \<Rightarrow> (Some e, w')
      | (None, w') \<Rightarrow> agg_loop rest (iteration + 1) cnt dl w')"

text \<open>
  The phase from line 66 on, given the lines read back from \<^verbatim>\<open>process.out\<close>. The
  result is the exception that ended the script, if any, and the world it left.
\<close>

definition aggregation_phase ::
  "int list \<Rightarrow> string list \<Rightarrow> nat \<Rightarrow> string list \<Rightarrow> world \<Rightarrow> error option \<times> world" where
  "aggregation_phase ds fs cnt all_lines w =
     agg_loop (List.product ds fs) 0 cnt (data_lines all_lines)
       (open_w_write ''computed.out'' header w)"

subsection \<open>Vocabulary for the statements about the aggregation loop\<close>

text \<open>
  The blocks are numbered in loop order from 0. \<open>block_error\<close> is the exception the
  averages of block \<open>k\<close> raise, if any; \<open>written_block\<close> is what the script appends
  to \<^verbatim>\<open>computed.out\<close> for block \<open>k\<close> when it raises nothing; \<open>progress_line\<close> is what it
  prints after that; \<open>blocks_done n\<close> counts the blocks before the first of the first
  \<open>n\<close> that raises.
\<close>

definition block_error :: "nat \<Rightarrow> string list \<Rightarrow> nat \<Rightarrow> error option" where
  "block_error cnt dl k =
     (case averages (iteration_lines_of k cnt dl) of Inl e \<Rightarrow> Some e | Inr avgs \<Rightarrow> None)"

definition written_block :: "(int \<times> string) list \<Rightarrow> nat \<Rightarrow> string list \<Rightarrow> nat \<Rightarrow> string" where
  "written_block combos cnt dl k =
     (case averages (iteration_lines_of k cnt dl) of
        Inl e \<Rightarrow> []
      | Inr avgs \<Rightarrow>
          block_text (fst (combos ! k)) (snd (combos ! k)) (iteration_lines_of k cnt dl) avgs)"

definition progress_line :: "(int \<times> string) list \<Rightarrow> nat \<Rightarrow> string" where
  "progress_line combos k =
     ''Appended averages to trace file: datasize='' @ str_int (fst (combos ! k))
     @ '', freq='' @ snd (combos ! k)"

definition blocks_done :: "nat \<Rightarrow> nat \<Rightarrow> string list \<Rightarrow> nat" where
  "blocks_done n cnt dl = length (takeWhile (\<lambda>k. block_error cnt dl k = None) [0..<n])"

section \<open>Properties\<close>

subsection \<open>Strings\<close>

lemma startswith_prefix: "startswith s p = prefix p s"
  by (auto simp: startswith_def prefix_def) (metis append_eq_conv_conj)

lemma rstrip_empty_iff: "rstrip s = [] \<longleftrightarrow> (\<forall>c \<in> set s. is_space c)"
  by (auto simp: rstrip_def dropWhile_eq_Nil_conv)

lemma strip_empty_iff: "strip s = [] \<longleftrightarrow> (\<forall>c \<in> set s. is_space c)"
proof
  assume "strip s = []"
  then have "\<forall>c \<in> set (dropWhile is_space s). is_space c"
    by (simp add: strip_def rstrip_empty_iff)
  then have "dropWhile is_space s = []"
    by (metis hd_dropWhile list.set_sel(1))
  then show "\<forall>c \<in> set s. is_space c"
    by simp
next
  assume "\<forall>c \<in> set s. is_space c"
  then show "strip s = []"
    by (auto simp: strip_def rstrip_def dest: set_dropWhileD)
qed

lemma is_space_chars:
  "is_space CHR '' ''" "is_space (CHR 0x0A)" "\<not> is_space CHR ''#''" "\<not> is_space CHR ''m''"
  by (simp_all add: is_space_def)

lemma keep_line_iff:
  "keep_line line \<longleftrightarrow>
     (\<exists>c \<in> set line. \<not> is_space c) \<and> \<not> prefix ''#'' line \<and> \<not> prefix ''msgid'' line"
  by (auto simp: keep_line_def strip_empty_iff startswith_prefix)

lemma leading_space_no_prefix:
  assumes "is_space c"
  shows "\<not> startswith (c # rest) ''#''" and "\<not> startswith (c # rest) ''msgid''"
  using assms by (auto simp: startswith_def is_space_def)

subsection \<open>The filter\<close>

text \<open>
  Claim C4. The filter keeps a line exactly when the line has a non-whitespace
  character (it is non-empty after trimming), does not start with \<^verbatim>\<open>#\<close> and does not
  start with \<^verbatim>\<open>msgid\<close>; the kept lines stay in their order, and there are at most as
  many of them as input lines.
\<close>

theorem C4_filter_retains:
  "data_lines all_lines =
     filter (\<lambda>line. strip line \<noteq> [] \<and> \<not> prefix ''#'' line \<and> \<not> prefix ''msgid'' line) all_lines
   \<and> (\<forall>line. line \<in> set (data_lines all_lines) \<longleftrightarrow>
         line \<in> set all_lines \<and> (\<exists>c \<in> set line. \<not> is_space c)
         \<and> \<not> prefix ''#'' line \<and> \<not> prefix ''msgid'' line)
   \<and> length (data_lines all_lines) \<le> length all_lines"
proof -
  have k: "keep_line = (\<lambda>line. strip line \<noteq> [] \<and> \<not> prefix ''#'' line \<and> \<not> prefix ''msgid'' line)"
    by (rule ext) (simp add: keep_line_def startswith_prefix)
  have "data_lines all_lines =
     filter (\<lambda>line. strip line \<noteq> [] \<and> \<not> prefix ''#'' line \<and> \<not> prefix ''msgid'' line) all_lines"
    by (simp add: data_lines_def k)
  moreover have "\<forall>line. line \<in> set (data_lines all_lines) \<longleftrightarrow>
         line \<in> set all_lines \<and> (\<exists>c \<in> set line. \<not> is_space c)
         \<and> \<not> prefix ''#'' line \<and> \<not> prefix ''msgid'' line"
    by (simp add: data_lines_def keep_line_iff)
  moreover have "length (data_lines all_lines) \<le> length all_lines"
    by (simp add: data_lines_def)
  ultimately show ?thesis by blast
qed

theorem C4_filter_retains_witness:
  "data_lines [''# c'', ''msgid n'', ''  '', ''m 1 2 3 4''] = [''m 1 2 3 4'']
   \<and> length (data_lines [''# c'', ''msgid n'', ''  '', ''m 1 2 3 4''])
       \<le> length [''# c'', ''msgid n'', ''  '', ''m 1 2 3 4'']"
  using C4_filter_retains [of "[''# c'', ''msgid n'', ''  '', ''m 1 2 3 4'']"]
  by (simp add: strip_def rstrip_def is_space_def)


subsection \<open>The aggregation loop as a whole\<close>

lemma agg_loop_append:
  "agg_loop (xs @ ys) k cnt dl w =
     (case agg_loop xs k cnt dl w of
        (Some e, w') \<Rightarrow> (Some e, w')
      | (None, w') \<Rightarrow> agg_loop ys (k + length xs) cnt dl w')"
proof (induction xs arbitrary: k w)
  case Nil
  then show ?case by simp
next
  case (Cons c xs)
  obtain d f where c: "c = (d, f)" by (cases c)
  show ?case
    by (simp add: c Cons.IH split: prod.splits option.splits)
qed

lemma blocks_done_le: "blocks_done n cnt dl \<le> n"
  unfolding blocks_done_def by (metis length_takeWhile_le length_upt diff_zero)

lemma blocks_done_fails:
  assumes "blocks_done n cnt dl < n"
  shows "block_error cnt dl (blocks_done n cnt dl) \<noteq> None"
proof -
  let ?P = "\<lambda>k. block_error cnt dl k = None"
  have "length (takeWhile ?P [0..<n]) < length [0..<n]"
    using assms by (simp add: blocks_done_def)
  then have "\<not> ?P ([0..<n] ! length (takeWhile ?P [0..<n]))"
    by (rule nth_length_takeWhile)
  then show ?thesis
    using assms by (simp add: blocks_done_def)
qed

lemma blocks_done_Suc:
  "blocks_done (Suc n) cnt dl =
     (if blocks_done n cnt dl < n then blocks_done n cnt dl
      else if block_error cnt dl n = None then Suc n else n)"
proof (cases "blocks_done n cnt dl < n")
  case True
  let ?P = "\<lambda>k. block_error cnt dl k = None"
  have "\<not> ?P (blocks_done n cnt dl)"
    using blocks_done_fails [OF True] by simp
  moreover have "blocks_done n cnt dl \<in> set [0..<n]"
    using True by simp
  ultimately have "takeWhile ?P ([0..<n] @ [n]) = takeWhile ?P [0..<n]"
    by (intro takeWhile_append1) auto
  then show ?thesis
    using True by (simp add: blocks_done_def)
next
  case False
  let ?P = "\<lambda>k. block_error cnt dl k = None"
  have full: "length (takeWhile ?P [0..<n]) = length [0..<n]"
    using False blocks_done_le [of n cnt dl] by (simp add: blocks_done_def)
  then have "takeWhile ?P [0..<n] = [0..<n]"
    by (metis takeWhile_eq_take take_all order_refl)
  then have "\<forall>x \<in> set [0..<n]. ?P x"
    by (metis set_takeWhileD)
  then have "takeWhile ?P ([0..<n] @ [n]) = [0..<n] @ takeWhile ?P [n]"
    by (intro takeWhile_append2) auto
  then show ?thesis
    using False by (simp add: blocks_done_def)
qed

lemma written_block_snoc:
  "k < length cs \<Longrightarrow> written_block (cs @ [c]) cnt dl k = written_block cs cnt dl k"
  by (simp add: written_block_def nth_append split: sum.splits)

lemma progress_line_snoc:
  "k < length cs \<Longrightarrow> progress_line (cs @ [c]) k = progress_line cs k"
  by (simp add: progress_line_def nth_append)


lemma process_block_ok:
  assumes "averages (iteration_lines_of k cnt dl) = Inr avgs"
      and "files w ''computed.out'' = Some a"
  shows "fst (process_block d f k cnt dl w) = None"
    and "files (snd (process_block d f k cnt dl w)) ''computed.out'' =
           Some (a @ block_text d f (iteration_lines_of k cnt dl) avgs)"
    and "name \<noteq> ''computed.out'' \<Longrightarrow> files (snd (process_block d f k cnt dl w)) name = files w name"
    and "stdout (snd (process_block d f k cnt dl w)) =
           stdout w @ [''Appended averages to trace file: datasize='' @ str_int d @ '', freq='' @ f]"
    and "calls (snd (process_block d f k cnt dl w)) = calls w"
  using assms by (simp_all add: process_block_def print_def open_a_write_def)

lemma process_block_err:
  assumes "averages (iteration_lines_of k cnt dl) = Inl e"
  shows "process_block d f k cnt dl w = (Some e, w)"
  using assms by (simp add: process_block_def)

lemma agg_loop_snoc:
  "agg_loop (cs @ [(d, f)]) 0 cnt dl w =
     (if fst (agg_loop cs 0 cnt dl w) = None
      then process_block d f (length cs) cnt dl (snd (agg_loop cs 0 cnt dl w))
      else agg_loop cs 0 cnt dl w)"
  by (cases "agg_loop cs 0 cnt dl w"; cases "fst (agg_loop cs 0 cnt dl w)";
      cases "process_block d f (length cs) cnt dl (snd (agg_loop cs 0 cnt dl w))";
      cases "fst (process_block d f (length cs) cnt dl (snd (agg_loop cs 0 cnt dl w)))")
     (simp_all add: agg_loop_append)

lemma agg_loop_char:
  assumes "files w ''computed.out'' = Some old"
  shows "fst (agg_loop cs 0 cnt dl w) =
           (if blocks_done (length cs) cnt dl < length cs
            then block_error cnt dl (blocks_done (length cs) cnt dl) else None)
       \<and> files (snd (agg_loop cs 0 cnt dl w)) ''computed.out'' =
           Some (old @ concat (map (written_block cs cnt dl) [0..<blocks_done (length cs) cnt dl]))
       \<and> (\<forall>name. name \<noteq> ''computed.out'' \<longrightarrow>
             files (snd (agg_loop cs 0 cnt dl w)) name = files w name)
       \<and> stdout (snd (agg_loop cs 0 cnt dl w)) =
           stdout w @ map (progress_line cs) [0..<blocks_done (length cs) cnt dl]
       \<and> calls (snd (agg_loop cs 0 cnt dl w)) = calls w"
proof (induction cs rule: rev_induct)
  case Nil
  show ?case using assms by (simp add: blocks_done_def)
next
  case (snoc c cs)
  obtain d f where c: "c = (d, f)" by (cases c)
  let ?n = "length cs"
  let ?j = "blocks_done ?n cnt dl"
  let ?r = "agg_loop cs 0 cnt dl w"
  let ?cs' = "cs @ [(d, f)]"
  have jle: "?j \<le> ?n" by (rule blocks_done_le)
  have wb: "map (written_block ?cs' cnt dl) [0..<m] = map (written_block cs cnt dl) [0..<m]"
    if "m \<le> ?n" for m
    using that by (intro map_cong) (auto simp: written_block_snoc)
  have pl: "map (progress_line ?cs') [0..<m] = map (progress_line cs) [0..<m]"
    if "m \<le> ?n" for m
    using that by (intro map_cong) (auto simp: progress_line_snoc)
  have len: "length ?cs' = Suc ?n" by simp
  have IH1: "fst ?r = (if ?j < ?n then block_error cnt dl ?j else None)"
    and IH2: "files (snd ?r) ''computed.out'' =
             Some (old @ concat (map (written_block cs cnt dl) [0..<?j]))"
    and IH2': "\<And>name. name \<noteq> ''computed.out'' \<Longrightarrow> files (snd ?r) name = files w name"
    and IH3: "stdout (snd ?r) = stdout w @ map (progress_line cs) [0..<?j]"
    and IH4: "calls (snd ?r) = calls w"
    using snoc.IH by simp_all
  have goal: "fst (agg_loop ?cs' 0 cnt dl w) =
           (if blocks_done (Suc ?n) cnt dl < Suc ?n
            then block_error cnt dl (blocks_done (Suc ?n) cnt dl) else None)
       \<and> files (snd (agg_loop ?cs' 0 cnt dl w)) ''computed.out'' =
           Some (old @ concat (map (written_block ?cs' cnt dl) [0..<blocks_done (Suc ?n) cnt dl]))
       \<and> (\<forall>name. name \<noteq> ''computed.out'' \<longrightarrow>
             files (snd (agg_loop ?cs' 0 cnt dl w)) name = files w name)
       \<and> stdout (snd (agg_loop ?cs' 0 cnt dl w)) =
           stdout w @ map (progress_line ?cs') [0..<blocks_done (Suc ?n) cnt dl]
       \<and> calls (snd (agg_loop ?cs' 0 cnt dl w)) = calls w"
  proof (cases "?j < ?n")
    case True
    then have "block_error cnt dl ?j \<noteq> None" by (rule blocks_done_fails)
    then have ne: "fst ?r \<noteq> None" using True IH1 by simp
    have bd: "blocks_done (Suc ?n) cnt dl = ?j"
      using True by (simp add: blocks_done_Suc)
    have same: "agg_loop ?cs' 0 cnt dl w = ?r"
      using ne by (auto simp: agg_loop_snoc)
    show ?thesis
      unfolding same bd using True IH1 IH2 IH2' IH3 IH4 by (simp add: wb [OF jle] pl [OF jle])
  next
    case False
    then have jn: "?j = ?n" using jle by simp
    have none: "fst ?r = None" using False IH1 by simp
    have step: "agg_loop ?cs' 0 cnt dl w = process_block d f ?n cnt dl (snd ?r)"
      using none by (simp add: agg_loop_snoc)
    have f1: "files (snd ?r) ''computed.out'' =
        Some (old @ concat (map (written_block cs cnt dl) [0..<?n]))"
      using IH2 jn by simp
    show ?thesis
    proof (cases "averages (iteration_lines_of ?n cnt dl)")
      case (Inl e)
      then have be: "block_error cnt dl ?n = Some e" by (simp add: block_error_def)
      have bd: "blocks_done (Suc ?n) cnt dl = ?n"
        using False be by (simp add: blocks_done_Suc)
      have "agg_loop ?cs' 0 cnt dl w = (Some e, snd ?r)"
        unfolding step by (rule process_block_err [OF Inl])
      then show ?thesis
        unfolding bd using be f1 IH2' IH3 IH4 jn by (simp add: wb pl)
    next
      case (Inr avgs)
      then have be: "block_error cnt dl ?n = None" by (simp add: block_error_def)
      have bd: "blocks_done (Suc ?n) cnt dl = Suc ?n"
        using False be by (simp add: blocks_done_Suc)
      have wn: "written_block ?cs' cnt dl ?n = block_text d f (iteration_lines_of ?n cnt dl) avgs"
        by (simp add: written_block_def Inr)
      have pn: "progress_line ?cs' ?n =
          ''Appended averages to trace file: datasize='' @ str_int d @ '', freq='' @ f"
        by (simp add: progress_line_def)
      note pb = process_block_ok [OF Inr f1, where d = d and f = f]
      have g1: "fst (agg_loop ?cs' 0 cnt dl w) = None"
        unfolding step by (rule pb(1))
      have g2: "files (snd (agg_loop ?cs' 0 cnt dl w)) ''computed.out'' =
          Some (old @ concat (map (written_block ?cs' cnt dl) [0..<Suc ?n]))"
        unfolding step pb(2) by (simp add: wn wb)
      have g2': "files (snd (agg_loop ?cs' 0 cnt dl w)) name = files w name"
        if "name \<noteq> ''computed.out''" for name
        unfolding step using pb(3) [OF that] IH2' [OF that] by simp
      have g3: "stdout (snd (agg_loop ?cs' 0 cnt dl w)) =
          stdout w @ map (progress_line ?cs') [0..<Suc ?n]"
        unfolding step pb(4) IH3 pn [symmetric] by (simp add: pl jn)
      have g4: "calls (snd (agg_loop ?cs' 0 cnt dl w)) = calls w"
        unfolding step pb(5) by (rule IH4)
      show ?thesis
        unfolding bd using g1 g2 g2' g3 g4 by simp
    qed
  qed
  show ?case
    unfolding c len by (rule goal)
qed

lemma aggregation_phase_char:
  "fst (aggregation_phase ds fs cnt all_lines w) =
     (if blocks_done (length ds * length fs) cnt (data_lines all_lines) < length ds * length fs
      then block_error cnt (data_lines all_lines)
             (blocks_done (length ds * length fs) cnt (data_lines all_lines))
      else None)"
  "files (snd (aggregation_phase ds fs cnt all_lines w)) ''computed.out'' =
     Some (header @ concat (map (written_block (List.product ds fs) cnt (data_lines all_lines))
                          [0..<blocks_done (length ds * length fs) cnt (data_lines all_lines)]))"
  "name \<noteq> ''computed.out'' \<Longrightarrow>
     files (snd (aggregation_phase ds fs cnt all_lines w)) name = files w name"
  "stdout (snd (aggregation_phase ds fs cnt all_lines w)) =
     stdout w @ map (progress_line (List.product ds fs))
                  [0..<blocks_done (length ds * length fs) cnt (data_lines all_lines)]"
  "calls (snd (aggregation_phase ds fs cnt all_lines w)) = calls w"
proof -
  let ?w = "open_w_write ''computed.out'' header w"
  have "files ?w ''computed.out'' = Some header"
    by (simp add: open_w_write_def)
  note ch = agg_loop_char [OF this, of "List.product ds fs" cnt "data_lines all_lines"]
  show "fst (aggregation_phase ds fs cnt all_lines w) =
     (if blocks_done (length ds * length fs) cnt (data_lines all_lines) < length ds * length fs
      then block_error cnt (data_lines all_lines)
             (blocks_done (length ds * length fs) cnt (data_lines all_lines))
      else None)"
    using ch by (simp add: aggregation_phase_def)
  show "files (snd (aggregation_phase ds fs cnt all_lines w)) ''computed.out'' =
     Some (header @ concat (map (written_block (List.product ds fs) cnt (data_lines all_lines))
                          [0..<blocks_done (length ds * length fs) cnt (data_lines all_lines)]))"
    using ch by (simp add: aggregation_phase_def)
  show "files (snd (aggregation_phase ds fs cnt all_lines w)) name = files w name"
    if "name \<noteq> ''computed.out''"
    using ch that by (simp add: aggregation_phase_def open_w_write_def)
  show "stdout (snd (aggregation_phase ds fs cnt all_lines w)) =
     stdout w @ map (progress_line (List.product ds fs))
                  [0..<blocks_done (length ds * length fs) cnt (data_lines all_lines)]"
    using ch by (simp add: aggregation_phase_def open_w_write_def)
  show "calls (snd (aggregation_phase ds fs cnt all_lines w)) = calls w"
    using ch by (simp add: aggregation_phase_def open_w_write_def)
qed


end
